theory Spec2Isabelle
  imports Complex_Main "HOL-Library.Word"
begin

section \<open>JavaScript numbers as far as \<open>toLength\<close> needs them\<close>

text \<open>
  A JavaScript number is an IEEE-754 double. \<open>toLength\<close> only tests, compares, takes
  the absolute value, rounds down and multiplies by \<open>1\<close> or \<open>-1\<close>; each of these is
  exact on doubles, so a finite number is modelled by the rational it denotes, next to
  the four special values. \<open>Fin 0\<close> is \<open>+0\<close>, \<open>NegZero\<close> is \<open>-0\<close>.
\<close>

datatype jsnum = NaN | PosInf | NegInf | NegZero | Fin rat

fun num_val :: "jsnum \<Rightarrow> rat" where
  "num_val (Fin q) = q"
| "num_val _ = 0"

text \<open>The relational operator \<open>a < b\<close>: false when either side is \<open>NaN\<close>.\<close>

fun js_lt :: "jsnum \<Rightarrow> jsnum \<Rightarrow> bool" where
  "js_lt NaN _ = False"
| "js_lt _ NaN = False"
| "js_lt PosInf _ = False"
| "js_lt _ PosInf = True"
| "js_lt _ NegInf = False"
| "js_lt NegInf _ = True"
| "js_lt a b = (num_val a < num_val b)"

text \<open>Strict equality \<open>a === b\<close> on numbers: \<open>NaN\<close> equals nothing, \<open>-0 === +0\<close>.\<close>

fun js_strict_eq :: "jsnum \<Rightarrow> jsnum \<Rightarrow> bool" where
  "js_strict_eq NaN _ = False"
| "js_strict_eq _ NaN = False"
| "js_strict_eq PosInf b = (b = PosInf)"
| "js_strict_eq NegInf b = (b = NegInf)"
| "js_strict_eq _ PosInf = False"
| "js_strict_eq _ NegInf = False"
| "js_strict_eq a b = (num_val a = num_val b)"

definition js_gt :: "jsnum \<Rightarrow> jsnum \<Rightarrow> bool" where
  "js_gt a b = js_lt b a"

definition js_le :: "jsnum \<Rightarrow> jsnum \<Rightarrow> bool" where
  "js_le a b = (js_lt a b \<or> js_strict_eq a b)"

text \<open>The global \<open>isNaN\<close> and \<open>isFinite\<close>, \<open>Math.abs\<close>, \<open>Math.floor\<close> on numbers.\<close>

fun js_isNaN :: "jsnum \<Rightarrow> bool" where
  "js_isNaN NaN = True"
| "js_isNaN _ = False"

fun js_isFinite :: "jsnum \<Rightarrow> bool" where
  "js_isFinite NaN = False"
| "js_isFinite PosInf = False"
| "js_isFinite NegInf = False"
| "js_isFinite _ = True"

fun js_abs :: "jsnum \<Rightarrow> jsnum" where
  "js_abs NaN = NaN"
| "js_abs PosInf = PosInf"
| "js_abs NegInf = PosInf"
| "js_abs NegZero = Fin 0"
| "js_abs (Fin q) = Fin \<bar>q\<bar>"

fun js_floor :: "jsnum \<Rightarrow> jsnum" where
  "js_floor (Fin q) = Fin (of_int \<lfloor>q\<rfloor>)"
| "js_floor x = x"

text \<open>
  The product \<open>a * b\<close>. The sign of a zero or infinite result is the exclusive or of the
  signs of the factors. A product of doubles is rounded in general; the only product in
  the source has a factor \<open>1\<close> or \<open>-1\<close>, where it is exact.
\<close>

fun js_negative :: "jsnum \<Rightarrow> bool" where
  "js_negative NegInf = True"
| "js_negative NegZero = True"
| "js_negative (Fin q) = (q < 0)"
| "js_negative _ = False"

fun js_infinite :: "jsnum \<Rightarrow> bool" where
  "js_infinite PosInf = True"
| "js_infinite NegInf = True"
| "js_infinite _ = False"

definition js_mul :: "jsnum \<Rightarrow> jsnum \<Rightarrow> jsnum" where
  "js_mul a b =
     (if js_isNaN a \<or> js_isNaN b then NaN
      else if js_infinite a \<or> js_infinite b then
        (if (js_infinite a \<and> num_val b = 0 \<and> \<not> js_infinite b)
            \<or> (js_infinite b \<and> num_val a = 0 \<and> \<not> js_infinite a) then NaN
         else if js_negative a \<noteq> js_negative b then NegInf else PosInf)
      else if num_val a * num_val b = 0 then
        (if js_negative a \<noteq> js_negative b then NegZero else Fin 0)
      else Fin (num_val a * num_val b))"

text \<open>\<^verbatim>\<open>var maxSafeInteger = Math.pow(2, 53) - 1;\<close>\<close>

definition maxSafeInteger :: jsnum where
  "maxSafeInteger = Fin (2 ^ 53 - 1)"

text \<open>
  \<^verbatim>\<open>function numberIsFinite(value) { return typeof value === 'number' && root.isFinite(value); }\<close>
  The argument is a number wherever the source calls it.
\<close>

definition numberIsFinite :: "jsnum \<Rightarrow> bool" where
  "numberIsFinite v = js_isFinite v"

text \<open>\<^verbatim>\<open>function isNan(n) { return n !== n; }\<close>\<close>

definition isNan :: "jsnum \<Rightarrow> bool" where
  "isNan n = (\<not> js_strict_eq n n)"

text \<open>
  \<^verbatim>\<open>function sign(value) {
    var number = +value;
    if (number === 0) { return number; }
    if (isNaN(number)) { return number; }
    return number < 0 ? -1 : 1;
  }\<close>
\<close>

definition sign :: "jsnum \<Rightarrow> jsnum" where
  "sign number =
     (if js_strict_eq number (Fin 0) then number
      else if js_isNaN number then number
      else if js_lt number (Fin 0) then Fin (- 1) else Fin 1)"

section \<open>Values, sources and iterators\<close>

text \<open>
  A JavaScript string is a sequence of 16-bit code units. \<open>str\<close> writes one from
  its ASCII characters.
\<close>

type_synonym code_unit = "16 word"

type_synonym jsstring = "code_unit list"

definition str :: "string \<Rightarrow> jsstring" where
  "str s = map (\<lambda>c. of_nat (of_char c)) s"

text \<open>
  The values handed to an observer. The source never inspects an element, so any object
  is an opaque reference.
\<close>

datatype jsval = JUndefined | JNull | JBool bool | JNum jsnum | JStr jsstring | JRef nat

datatype error = Error string | TypeError string

text \<open>A call either returns or throws a value.\<close>

datatype 'a outcome = Returns 'a | Throws jsval

text \<open>
  An iterator result object \<open>{ done: d, value: v }\<close>; \<open>done\<close> is read for its truth
  value only.
\<close>

datatype iter_result = IterResult (res_done: bool) (res_value: jsval)

text \<open>
  Modelled from the spec: the constant \<open>doneEnumerator\<close>, which the source returns from
  \<open>next\<close> at exhaustion, is declared outside the files at hand; it is the result that
  signals exhaustion (\<open>done\<close>), with no value.
\<close>

definition doneEnumerator :: iter_result where
  "doneEnumerator = IterResult True JUndefined"

text \<open>
  An iterator supplied by the host or by the caller (what \<open>o[$iterator$]()\<close> returns) is
  known by what its successive \<open>next()\<close> calls do: \<open>f k\<close> is the outcome of call number
  \<open>k\<close>, counted from \<open>0\<close>.
\<close>

type_synonym host_iterator = "nat \<Rightarrow> iter_result outcome"

text \<open>
  An object, as far as \<open>from\<close> looks at it: \<open>prop_iterator\<close> is \<open>o[$iterator$]\<close>
  (\<open>None\<close> when it is falsy, else the iterator a call of it returns), \<open>prop_length\<close> is
  \<open>None\<close> when \<open>o.length === undefined\<close> and else the number \<open>+o.length\<close>, and
  \<open>prop_index i\<close> is \<open>o[i]\<close>.
\<close>

record jsobject =
  prop_iterator :: "host_iterator option"
  prop_length :: "jsnum option"
  prop_index :: "nat \<Rightarrow> jsval"

text \<open>
  The argument of \<open>from\<close>: \<open>null\<close>, \<open>undefined\<close>, a primitive string or an object (a
  number or boolean primitive is given as the wrapper object \<open>Object\<close> makes of it).
\<close>

datatype source = SrcNull | SrcUndefined | SrcString jsstring | SrcObject jsobject

text \<open>
  The host decides whether strings are iterable: \<open>string_iterator\<close> is
  \<open>String.prototype[$iterator$]\<close>, \<open>None\<close> when the host defines none.
\<close>

record host =
  string_iterator :: "(jsstring \<Rightarrow> host_iterator) option"

text \<open>\<open>s.charAt(i)\<close>: the string of the one code unit at \<open>i\<close>, the empty string out of range.\<close>

definition charAt :: "jsstring \<Rightarrow> nat \<Rightarrow> jsval" where
  "charAt s i = (if i < length s then JStr [s ! i] else JStr [])"

text \<open>
  \<open>Object(v)\<close>: an object is returned as it is, \<open>null\<close> and \<open>undefined\<close> give a new
  empty object, and a primitive string gives a String object, whose \<open>typeof\<close> is
  \<open>'object'\<close>, whose \<open>length\<close> is the string's and whose index \<open>i\<close> is the character at
  \<open>i\<close> (\<open>undefined\<close> out of range).
\<close>

definition empty_object :: jsobject where
  "empty_object = \<lparr> prop_iterator = None, prop_length = None, prop_index = (\<lambda>_. JUndefined) \<rparr>"

definition string_object :: "host \<Rightarrow> jsstring \<Rightarrow> jsobject" where
  "string_object h s =
     \<lparr> prop_iterator = map_option (\<lambda>f. f s) (string_iterator h),
       prop_length = Some (Fin (of_nat (length s))),
       prop_index = (\<lambda>i. if i < length s then JStr [s ! i] else JUndefined) \<rparr>"

fun js_Object :: "host \<Rightarrow> source \<Rightarrow> source" where
  "js_Object h SrcNull = SrcObject empty_object"
| "js_Object h SrcUndefined = SrcObject empty_object"
| "js_Object h (SrcString s) = SrcObject (string_object h s)"
| "js_Object h (SrcObject ob) = SrcObject ob"

text \<open>
  \<^verbatim>\<open>function toLength(o) {
    var len = +o.length;
    if (isNaN(len)) { return 0; }
    if (len === 0 || !numberIsFinite(len)) { return len; }
    len = sign(len) * Math.floor(Math.abs(len));
    if (len <= 0) { return 0; }
    if (len > maxSafeInteger) { return maxSafeInteger; }
    return len;
  }\<close>
  \<open>+undefined\<close> is \<open>NaN\<close>.
\<close>

definition length_number :: "jsobject \<Rightarrow> jsnum" where
  "length_number ob = (case prop_length ob of None \<Rightarrow> NaN | Some l \<Rightarrow> l)"

definition toLength_num :: "jsnum \<Rightarrow> jsnum" where
  "toLength_num len =
     (if js_isNaN len then Fin 0
      else if js_strict_eq len (Fin 0) \<or> \<not> numberIsFinite len then len
      else let len' = js_mul (sign len) (js_floor (js_abs len)) in
        if js_le len' (Fin 0) then Fin 0
        else if js_gt len' maxSafeInteger then maxSafeInteger
        else len')"

definition toLength :: "jsobject \<Rightarrow> jsnum" where
  "toLength ob = toLength_num (length_number ob)"

text \<open>
  The three kinds of iterator: the source's \<open>StringIterator\<close> (fields \<open>_s\<close>, \<open>_l\<close>,
  \<open>_i\<close>) and \<open>ArrayIterator\<close> (fields \<open>_a\<close>, \<open>_l\<close>, \<open>_i\<close>), and an iterator of the
  host or the caller with the number of \<open>next()\<close> calls made so far. The cursor \<open>_i\<close>
  starts at \<open>0\<close> and is only ever incremented, so it is a natural number; it stays
  below \<open>2^53\<close>, where a double counts exactly, whenever \<open>_l\<close> is finite.
\<close>

datatype iterator =
    StringIterator jsstring nat nat
  | ArrayIterator jsobject jsnum nat
  | HostIterator host_iterator nat

text \<open>
  \<^verbatim>\<open>StringIterator.prototype.next = function () {
    return this._i < this._l ? { done: false, value: this._s.charAt(this._i++) } : doneEnumerator;
  };
  ArrayIterator.prototype.next = function () {
    return this._i < this._l ? { done: false, value: this._a[this._i++] } : doneEnumerator;
  };\<close>
  \<open>iter_next\<close> is the method \<open>next\<close>: it returns the outcome of the call and the
  iterator after it.
\<close>

fun iter_next :: "iterator \<Rightarrow> iter_result outcome \<times> iterator" where
  "iter_next (StringIterator s l i) =
     (if i < l then (Returns (IterResult False (charAt s i)), StringIterator s l (i + 1))
      else (Returns doneEnumerator, StringIterator s l i))"
| "iter_next (ArrayIterator a l i) =
     (if js_lt (Fin (of_nat i)) l
      then (Returns (IterResult False (prop_index a i)), ArrayIterator a l (i + 1))
      else (Returns doneEnumerator, ArrayIterator a l i))"
| "iter_next (HostIterator f k) = (f k, HostIterator f (k + 1))"

text \<open>
  \<^verbatim>\<open>function getIterable(o) {
    var i = o[$iterator$], it;
    if (!i && typeof o === 'string') {
      it = new StringIterable(o);
      return it[$iterator$]();
    }
    if (!i && o.length !== undefined) {
      it = new ArrayIterable(o);
      return it[$iterator$]();
    }
    if (!i) { throw new TypeError('Object is not iterable'); }
    return o[$iterator$]();
  }\<close>
  \<open>StringIterable\<close> and \<open>ArrayIterable\<close> only hold the value until their
  \<open>$iterator$\<close> method builds the iterator with \<open>new StringIterator(s)\<close> or
  \<open>new ArrayIterator(a)\<close>. Reading a property of \<open>null\<close> or \<open>undefined\<close> is the
  host's own TypeError. \<open>iterator_of\<close> is \<open>o[$iterator$]\<close>, \<open>typeof_string\<close> is
  \<open>typeof o === 'string'\<close> and \<open>length_defined\<close> is \<open>o.length !== undefined\<close>.
\<close>

definition iterator_of :: "host \<Rightarrow> source \<Rightarrow> host_iterator option" where
  "iterator_of h o' =
     (case o' of
        SrcString s \<Rightarrow> map_option (\<lambda>f. f s) (string_iterator h)
      | SrcObject ob \<Rightarrow> prop_iterator ob
      | _ \<Rightarrow> None)"

definition typeof_string :: "source \<Rightarrow> bool" where
  "typeof_string o' = (case o' of SrcString _ \<Rightarrow> True | _ \<Rightarrow> False)"

definition length_defined :: "source \<Rightarrow> bool" where
  "length_defined o' =
     (case o' of SrcString _ \<Rightarrow> True | SrcObject ob \<Rightarrow> prop_length ob \<noteq> None | _ \<Rightarrow> False)"

fun string_of :: "source \<Rightarrow> jsstring" where
  "string_of (SrcString s) = s"
| "string_of _ = []"

fun object_of :: "source \<Rightarrow> jsobject" where
  "object_of (SrcObject ob) = ob"
| "object_of _ = empty_object"

definition new_StringIterator :: "jsstring \<Rightarrow> iterator" where
  "new_StringIterator s = StringIterator s (length s) 0"

definition new_ArrayIterator :: "jsobject \<Rightarrow> iterator" where
  "new_ArrayIterator a = ArrayIterator a (toLength a) 0"

definition getIterable :: "host \<Rightarrow> source \<Rightarrow> error + iterator" where
  "getIterable h o' =
     (case o' of
        SrcNull \<Rightarrow> Inl (TypeError ''Cannot read property of null'')
      | SrcUndefined \<Rightarrow> Inl (TypeError ''Cannot read property of undefined'')
      | _ \<Rightarrow>
         (let i = iterator_of h o' in
          if i = None \<and> typeof_string o' then Inr (new_StringIterator (string_of o'))
          else if i = None \<and> length_defined o' then Inr (new_ArrayIterator (object_of o'))
          else if i = None then Inl (TypeError ''Object is not iterable'')
          else Inr (HostIterator (the i) 0)))"

section \<open>Observers and the scheduled loop of \<open>from\<close>\<close>

text \<open>
  The observer of the model is a collecting observer: it records each signal it receives,
  in order, and never throws.
\<close>

datatype signal = OnNext jsval | OnError jsval | OnCompleted

definition onNext :: "jsval \<Rightarrow> signal list \<Rightarrow> signal list" where
  "onNext v tr = tr @ [OnNext v]"

definition onError :: "jsval \<Rightarrow> signal list \<Rightarrow> signal list" where
  "onError e tr = tr @ [OnError e]"

definition onCompleted :: "signal list \<Rightarrow> signal list" where
  "onCompleted tr = tr @ [OnCompleted]"

text \<open>
  Modelled from the spec: \<open>tryCatch\<close> and \<open>errorObj\<close> are declared outside the files at
  hand. \<open>tryCatch(f).call(it)\<close> calls \<open>f\<close>; when the call throws, the result is the
  object \<open>errorObj\<close> with the thrown value in its field \<open>e\<close>, and else it is what the
  call returned ("if the underlying pull throws, deliver onError with the thrown error").
\<close>

datatype 'a tried = ErrorObj jsval | Result 'a

fun tryCatch :: "'a outcome \<Rightarrow> 'a tried" where
  "tryCatch (Throws e) = ErrorObj e"
| "tryCatch (Returns r) = Result r"

text \<open>
  \<^verbatim>\<open>function createScheduleMethod(o, it) {
    return function loopRecursive(i, recurse) {
      var next = tryCatch(it.next).call(it);
      if (next === errorObj) { return o.onError(next.e); }
      if (next.done) { return o.onCompleted(); }
      o.onNext(next.value);
      recurse(i + 1);
    };
  }\<close>
  The worker acts on the iterator and on the observer; it returns them with the state it
  passed to \<open>recurse\<close>, \<open>None\<close> when it returned without calling \<open>recurse\<close>.
\<close>

type_synonym world = "iterator \<times> signal list"

definition loopRecursive :: "nat \<Rightarrow> world \<Rightarrow> world \<times> nat option" where
  "loopRecursive i w =
     (case w of (it, tr) \<Rightarrow>
        (case iter_next it of (r, it') \<Rightarrow>
           (case tryCatch r of
              ErrorObj e \<Rightarrow> ((it', onError e tr), None)
            | Result nxt \<Rightarrow>
                if res_done nxt then ((it', onCompleted tr), None)
                else ((it', onNext (res_value nxt) tr), Some (i + 1)))))"

text \<open>
  Modelled from the spec: the schedulers are declared outside the files at hand. The
  contract of \<open>scheduleRecursive(initialState, worker)\<close> is that the scheduler runs
  \<open>worker(state, recurse)\<close>, that a call \<open>recurse(nextState)\<close> schedules one more run
  of the worker with \<open>nextState\<close>, and that a worker that returns without calling
  \<open>recurse\<close> ends the work. Schedulers differ in when the runs happen (the current-thread
  scheduler drains them before \<open>subscribe\<close> returns), not in which runs happen, so the
  model gives the world once the scheduler has run all the work of an undisposed
  subscription. A worker that calls \<open>recurse\<close> for ever makes it \<open>None\<close>.
\<close>

datatype scheduler = currentThreadScheduler | suppliedScheduler nat

partial_function (option) scheduleRecursive ::
  "scheduler \<Rightarrow> ('st \<Rightarrow> 'w \<Rightarrow> 'w \<times> 'st option) \<Rightarrow> 'st \<Rightarrow> 'w \<Rightarrow> 'w option" where
  "scheduleRecursive sch worker st w =
     (case worker st w of
        (w', None) \<Rightarrow> Some w'
      | (w', Some st') \<Rightarrow> scheduleRecursive sch worker st' w')"

text \<open>
  \<^verbatim>\<open>function FromObservable(iterable, scheduler) {
    this._iterable = iterable;
    this._scheduler = scheduler;
    __super__.call(this);
  }
  FromObservable.prototype.subscribeCore = function (o) {
    var list = Object(this._iterable),
        it = getIterable(list);
    return this._scheduler.scheduleRecursive(0, createScheduleMethod(o, it));
  };\<close>
  \<open>subscribeCore\<close> is run with a fresh collecting observer; the result is the error it
  throws or the signals the observer has received.
\<close>

record FromObservable =
  from_iterable :: source
  from_scheduler :: scheduler

definition FromObservable_subscribeCore ::
  "host \<Rightarrow> FromObservable \<Rightarrow> (error + signal list) option" where
  "FromObservable_subscribeCore h this =
     (let list = js_Object h (from_iterable this) in
      case getIterable h list of
        Inl e \<Rightarrow> Some (Inl e)
      | Inr it \<Rightarrow>
          map_option (\<lambda>w. Inr (snd w))
            (scheduleRecursive (from_scheduler this) loopRecursive 0 (it, [])))"

text \<open>
  \<^verbatim>\<open>var observableFrom = Observable.from = function (iterable, thisArg, scheduler) {
    if (iterable == null) {
      throw new Error('iterable cannot be null.')
    }
    isScheduler(scheduler) || (scheduler = currentThreadScheduler);
    return new FromObservable(iterable, scheduler);
  }\<close>
  \<open>iterable == null\<close> holds of \<open>null\<close> and \<open>undefined\<close> alone. The third argument is
  \<open>Some s\<close> when \<open>isScheduler\<close> accepts it and \<open>None\<close> otherwise (left out, or not a
  scheduler).
\<close>

definition loosely_null :: "source \<Rightarrow> bool" where
  "loosely_null v = (case v of SrcNull \<Rightarrow> True | SrcUndefined \<Rightarrow> True | _ \<Rightarrow> False)"

definition observableFrom ::
  "source \<Rightarrow> jsval \<Rightarrow> scheduler option \<Rightarrow> error + FromObservable" where
  "observableFrom iterable thisArg scheduler =
     (if loosely_null iterable then Inl (Error ''iterable cannot be null.'')
      else
        let scheduler' = (case scheduler of Some s \<Rightarrow> s | None \<Rightarrow> currentThreadScheduler)
        in Inr \<lparr> from_iterable = iterable, from_scheduler = scheduler' \<rparr>)"

text \<open>
  Calling \<open>from\<close> and subscribing to what it returns; an error of the call itself leaves
  nothing to subscribe to.
\<close>

definition subscribe_from ::
  "host \<Rightarrow> source \<Rightarrow> jsval \<Rightarrow> scheduler option \<Rightarrow> (error + signal list) option" where
  "subscribe_from h iterable thisArg scheduler =
     (case observableFrom iterable thisArg scheduler of
        Inl e \<Rightarrow> Some (Inl e)
      | Inr obs \<Rightarrow> FromObservable_subscribeCore h obs)"

section \<open>The event-pattern observable\<close>

text \<open>
  Observers are told apart by a number. What they receive is recorded in one list of
  deliveries, in order.
\<close>

datatype observer = Observer nat

type_synonym deliveries = "(observer \<times> signal) list"

text \<open>
  \<^verbatim>\<open>function createHandler(o) {
    return function handler () {
      var results = arguments[0];
      o.onNext(results);
    };
  }\<close>
  The closure is the value \<open>Handler o\<close>; \<open>handler_call\<close> is its body, run on the list
  of arguments of a call. \<open>arguments[0]\<close> is \<open>undefined\<close> when there is no argument.
\<close>

datatype handler = Handler observer

definition createHandler :: "observer \<Rightarrow> handler" where
  "createHandler o' = Handler o'"

definition arguments0 :: "jsval list \<Rightarrow> jsval" where
  "arguments0 args = (case args of [] \<Rightarrow> JUndefined | a # _ \<Rightarrow> a)"

fun handler_call :: "handler \<Rightarrow> jsval list \<Rightarrow> deliveries \<Rightarrow> deliveries" where
  "handler_call (Handler o') args dl = (let results = arguments0 args in dl @ [(o', OnNext results)])"

text \<open>
  The caller's two functions. \<open>addHandler\<close> is called with the handler and returns a value
  or throws. \<open>removeHandler\<close> is optional: \<open>Function f\<close> when \<open>isFunction\<close> accepts it
  (it is then called with the handler and the value \<open>addHandler\<close> returned),
  \<open>NotFunction\<close> otherwise. Each call of either is recorded.
\<close>

type_synonym addHandler = "handler \<Rightarrow> jsval outcome"

datatype removeHandler = NotFunction | Function "handler \<Rightarrow> jsval \<Rightarrow> jsval outcome"

datatype call = AddCall handler | RemoveCall handler jsval

text \<open>
  \<^verbatim>\<open>function EventPatternObservable(add, del) {
    this._add = add;
    this._del = del;
    __super__.call(this);
  }
  function EventPatternDisposable(del, fn, ret) {
    this._del = del;
    this._fn = fn;
    this._ret = ret;
    this.isDisposed = false;
  }\<close>
\<close>

record EventPatternObservable =
  ep_add :: addHandler
  ep_del :: removeHandler

record EventPatternDisposable =
  d_del :: removeHandler
  d_fn :: handler
  d_ret :: jsval
  isDisposed :: bool

definition new_EventPatternDisposable ::
  "removeHandler \<Rightarrow> handler \<Rightarrow> jsval \<Rightarrow> EventPatternDisposable" where
  "new_EventPatternDisposable del fn ret =
     \<lparr> d_del = del, d_fn = fn, d_ret = ret, isDisposed = False \<rparr>"

text \<open>
  \<^verbatim>\<open>EventPatternObservable.prototype.subscribeCore = function (o) {
    var fn = createHandler(o);
    var returnValue = this._add(fn);
    return new EventPatternDisposable(this._del, fn, returnValue);
  };\<close>
  When \<open>addHandler\<close> throws, so does \<open>subscribeCore\<close>.
\<close>

definition EventPatternObservable_subscribeCore ::
  "EventPatternObservable \<Rightarrow> observer \<Rightarrow> call list \<Rightarrow> EventPatternDisposable outcome \<times> call list" where
  "EventPatternObservable_subscribeCore this o' calls =
     (let fn = createHandler o' in
      case ep_add this fn of
        Throws e \<Rightarrow> (Throws e, calls @ [AddCall fn])
      | Returns returnValue \<Rightarrow>
          (Returns (new_EventPatternDisposable (ep_del this) fn returnValue), calls @ [AddCall fn]))"

text \<open>
  \<^verbatim>\<open>EventPatternDisposable.prototype.dispose = function () {
    if(!this.isDisposed) {
      isFunction(this._del) && this._del(this._fn, this._ret);
      this.isDisposed = true;
    }
  };\<close>
  \<open>dispose\<close> returns how the call ended, the disposable after it and the calls made so
  far. When \<open>removeHandler\<close> throws, the assignment after it is not reached.
\<close>

definition dispose ::
  "EventPatternDisposable \<Rightarrow> call list \<Rightarrow> unit outcome \<times> EventPatternDisposable \<times> call list" where
  "dispose this calls =
     (if \<not> isDisposed this then
        (case d_del this of
           NotFunction \<Rightarrow> (Returns (), this\<lparr>isDisposed := True\<rparr>, calls)
         | Function f \<Rightarrow>
             (case f (d_fn this) (d_ret this) of
                Throws e \<Rightarrow> (Throws e, this, calls @ [RemoveCall (d_fn this) (d_ret this)])
              | Returns _ \<Rightarrow>
                  (Returns (), this\<lparr>isDisposed := True\<rparr>,
                   calls @ [RemoveCall (d_fn this) (d_ret this)])))
      else (Returns (), this, calls))"

text \<open>Calling \<open>dispose()\<close> a second time, whatever the first call did.\<close>

definition dispose_twice ::
  "EventPatternDisposable \<Rightarrow> call list \<Rightarrow> unit outcome \<times> EventPatternDisposable \<times> call list" where
  "dispose_twice this calls = (case dispose this calls of (_, this', calls') \<Rightarrow> dispose this' calls')"

text \<open>The calls of \<open>removeHandler\<close> among the recorded calls.\<close>

fun is_remove :: "call \<Rightarrow> bool" where
  "is_remove (RemoveCall _ _) = True"
| "is_remove (AddCall _) = False"

definition remove_calls :: "call list \<Rightarrow> call list" where
  "remove_calls calls = filter is_remove calls"

text \<open>A disposable whose \<open>removeHandler\<close> throws.\<close>

definition throwing_disposable :: EventPatternDisposable where
  "throwing_disposable =
     new_EventPatternDisposable (Function (\<lambda>_ _. Throws (JStr (str ''boom''))))
       (createHandler (Observer 0)) (JNum (Fin 7))"

section \<open>Sharing one registration among the subscribers\<close>

text \<open>
  Modelled from the spec: \<open>publish\<close> and \<open>refCount\<close> are declared outside the files at
  hand. The spec says of them that the constructor result is wrapped so that the
  subscribers share exactly one underlying registration with the event source, that the
  wrapper has a subscriber count and owns an optional inner subscription handle, and
  that the events of the one registration are broadcast to the subscribers. They reach
  the subscribers through one shared observer, \<open>publish_subject\<close>.
\<close>

definition publish_subject :: observer where
  "publish_subject = Observer 0"

record shared =
  sh_source :: EventPatternObservable
  sh_count :: nat
  sh_connection :: "EventPatternDisposable option"
  sh_subscribers :: "observer list"

text \<open>
  \<^verbatim>\<open>var fromEventPattern = Observable.fromEventPattern = function (addHandler, removeHandler) {
    return new EventPatternObservable(addHandler, removeHandler).publish().refCount();
  };\<close>
  The wrapper starts without subscriber and without registration: constructing it calls
  neither function.
\<close>

definition fromEventPattern :: "addHandler \<Rightarrow> removeHandler \<Rightarrow> shared" where
  "fromEventPattern addHandler removeHandler =
     \<lparr> sh_source = \<lparr> ep_add = addHandler, ep_del = removeHandler \<rparr>,
       sh_count = 0, sh_connection = None, sh_subscribers = [] \<rparr>"

text \<open>
  Modelled from the spec: subscribing to the wrapper. The count decides when to register:
  increment, then register on the first subscriber. The registration is the source's
  \<open>subscribeCore\<close>, run with the shared observer; when it throws, so does the
  subscription.
\<close>

definition shared_subscribe ::
  "observer \<Rightarrow> shared \<Rightarrow> call list \<Rightarrow> (shared \<times> call list) outcome" where
  "shared_subscribe o' sh calls =
     (let sh1 = sh\<lparr>sh_subscribers := sh_subscribers sh @ [o'], sh_count := sh_count sh + 1\<rparr> in
      if sh_count sh1 = 1 then
        (case EventPatternObservable_subscribeCore (sh_source sh1) publish_subject calls of
           (Throws e, calls') \<Rightarrow> Throws e
         | (Returns d, calls') \<Rightarrow> Returns (sh1\<lparr>sh_connection := Some d\<rparr>, calls'))
      else Returns (sh1, calls))"

text \<open>
  Modelled from the spec: unsubscribing from the wrapper, which is the \<open>dispose()\<close> of
  the handle a subscriber was given; for an observer that is not subscribed (any more)
  it does nothing. The registration is torn down only when the last subscriber
  unsubscribes: unregister, then decrement. The teardown is the source's \<open>dispose\<close> of
  the inner subscription.
\<close>

definition shared_unsubscribe ::
  "observer \<Rightarrow> shared \<Rightarrow> call list \<Rightarrow> (shared \<times> call list) outcome" where
  "shared_unsubscribe o' sh calls =
     (if o' \<notin> set (sh_subscribers sh) then Returns (sh, calls)
      else
        let sh1 = sh\<lparr>sh_subscribers := remove1 o' (sh_subscribers sh)\<rparr> in
        if sh_count sh1 = 1 then
          (case sh_connection sh1 of
             None \<Rightarrow> Returns (sh1\<lparr>sh_count := 0\<rparr>, calls)
           | Some d \<Rightarrow>
               (case dispose d calls of
                  (Throws e, d', calls') \<Rightarrow> Throws e
                | (Returns _, d', calls') \<Rightarrow>
                    Returns (sh1\<lparr>sh_count := 0, sh_connection := None\<rparr>, calls')))
        else Returns (sh1\<lparr>sh_count := sh_count sh1 - 1\<rparr>, calls))"

text \<open>A run of subscriptions and unsubscriptions, stopped by the first exception.\<close>

datatype action = Subscribe observer | Unsubscribe observer

fun step :: "action \<Rightarrow> shared \<Rightarrow> call list \<Rightarrow> (shared \<times> call list) outcome" where
  "step (Subscribe o') sh calls = shared_subscribe o' sh calls"
| "step (Unsubscribe o') sh calls = shared_unsubscribe o' sh calls"

fun run :: "action list \<Rightarrow> shared \<Rightarrow> call list \<Rightarrow> (shared \<times> call list) outcome" where
  "run [] sh calls = Returns (sh, calls)"
| "run (a # as) sh calls =
     (case step a sh calls of
        Throws e \<Rightarrow> Throws e
      | Returns (sh', calls') \<Rightarrow> run as sh' calls')"

text \<open>The calls of \<open>addHandler\<close> and \<open>removeHandler\<close> that a run makes, in order.\<close>

definition run_calls :: "action list \<Rightarrow> shared \<Rightarrow> call list option" where
  "run_calls acts sh =
     (case run acts sh [] of Returns (_, calls) \<Rightarrow> Some calls | Throws _ \<Rightarrow> None)"

section \<open>Hosts and inputs used below\<close>

text \<open>
  A host's string iterator yields the characters of \<open>s\<close> when its first \<open>length s\<close>
  calls of \<open>next()\<close> return the characters in order and the call after them signals
  exhaustion.
\<close>

definition yields_characters :: "host_iterator \<Rightarrow> jsstring \<Rightarrow> bool" where
  "yields_characters g s =
     ((\<forall>k<length s. g k = Returns (IterResult False (charAt s k)))
      \<and> (case g (length s) of Returns r \<Rightarrow> res_done r | Throws _ \<Rightarrow> False))"

text \<open>A host without iterable strings, and the inputs of the examples.\<close>

definition no_string_iterator :: host where
  "no_string_iterator = \<lparr> string_iterator = None \<rparr>"

definition example_array :: jsobject where
  "example_array =
     \<lparr> prop_iterator = None, prop_length = Some (Fin 2),
       prop_index = (\<lambda>i. if i = 0 then JStr (str ''x'') else if i = 1 then JStr (str ''y'') else JUndefined) \<rparr>"

definition infinite_array :: jsobject where
  "infinite_array =
     \<lparr> prop_iterator = None, prop_length = Some PosInf, prop_index = (\<lambda>_. JUndefined) \<rparr>"

definition failing_iterator :: host_iterator where
  "failing_iterator k =
     (if k = 0 then Returns (IterResult False (JNum (Fin 1)))
      else if k = 1 then Returns (IterResult False (JNum (Fin 2)))
      else Throws (JStr (str ''fail'')))"

definition failing_iterable :: jsobject where
  "failing_iterable =
     \<lparr> prop_iterator = Some failing_iterator, prop_length = None, prop_index = (\<lambda>_. JUndefined) \<rparr>"

text \<open>An array-like whose \<open>length\<close> is beyond the safe integers.\<close>

definition huge_array :: jsobject where
  "huge_array =
     \<lparr> prop_iterator = None, prop_length = Some (Fin (2 ^ 60)), prop_index = (\<lambda>_. JUndefined) \<rparr>"

text \<open>
  \<open>removal_returns\<close>: the \<open>removeHandler\<close> is not callable, or its call with these
  arguments returns. \<open>removal_calls\<close>: the calls of \<open>removeHandler\<close> that one teardown
  makes.
\<close>

definition removal_returns :: "removeHandler \<Rightarrow> handler \<Rightarrow> jsval \<Rightarrow> bool" where
  "removal_returns del fn ret =
     (case del of
        NotFunction \<Rightarrow> True
      | Function f \<Rightarrow> (case f fn ret of Returns _ \<Rightarrow> True | Throws _ \<Rightarrow> False))"

definition removal_calls :: "removeHandler \<Rightarrow> handler \<Rightarrow> jsval \<Rightarrow> call list" where
  "removal_calls del fn ret =
     (case del of NotFunction \<Rightarrow> [] | Function _ \<Rightarrow> [RemoveCall fn ret])"

text \<open>An event source for the examples.\<close>

definition example_add :: addHandler where
  "example_add fn = Returns (JNum (Fin 7))"

definition example_remove_function :: "handler \<Rightarrow> jsval \<Rightarrow> jsval outcome" where
  "example_remove_function fn ret = Returns JUndefined"

definition example_remove :: removeHandler where
  "example_remove = Function example_remove_function"

definition example_source :: EventPatternObservable where
  "example_source = \<lparr> ep_add = example_add, ep_del = example_remove \<rparr>"

text \<open>
  The number of indices \<open>0, 1, 2, ...\<close> below a length \<open>l\<close> other than \<open>Infinity\<close>:
  the number of elements an \<open>ArrayIterator\<close> with this \<open>_l\<close> returns.
\<close>

definition element_count :: "jsnum \<Rightarrow> nat" where
  "element_count l = (case l of Fin q \<Rightarrow> nat \<lceil>q\<rceil> | _ \<Rightarrow> 0)"

text \<open>
  The scheduler \<open>from\<close> keeps, and the scheduled loop on an iterator for a new collecting
  observer, as \<open>subscribeCore\<close> starts it.
\<close>

definition scheduler_or_default :: "scheduler option \<Rightarrow> scheduler" where
  "scheduler_or_default scheduler =
     (case scheduler of Some s \<Rightarrow> s | None \<Rightarrow> currentThreadScheduler)"

definition iterate :: "scheduler \<Rightarrow> iterator \<Rightarrow> (error + signal list) option" where
  "iterate sch it =
     map_option (\<lambda>w. Inr (snd w)) (scheduleRecursive sch loopRecursive 0 (it, []))"

text \<open>
  The string iterator of an ECMAScript 2015 host (\<open>String.prototype[Symbol.iterator]\<close>)
  goes through the string by code point: a high surrogate followed by a low surrogate is
  returned as one string of two code units, any other code unit alone.
\<close>

definition high_surrogate :: "code_unit \<Rightarrow> bool" where
  "high_surrogate u = (0xD800 \<le> u \<and> u \<le> 0xDBFF)"

definition low_surrogate :: "code_unit \<Rightarrow> bool" where
  "low_surrogate u = (0xDC00 \<le> u \<and> u \<le> 0xDFFF)"

fun code_points :: "jsstring \<Rightarrow> jsstring list" where
  "code_points [] = []"
| "code_points [u] = [[u]]"
| "code_points (u # v # rest) =
     (if high_surrogate u \<and> low_surrogate v then [u, v] # code_points rest
      else [u] # code_points (v # rest))"

definition es2015_string_iterator :: "jsstring \<Rightarrow> host_iterator" where
  "es2015_string_iterator s k =
     (if k < length (code_points s) then Returns (IterResult False (JStr (code_points s ! k)))
      else Returns (IterResult True JUndefined))"

definition es2015_host :: host where
  "es2015_host = \<lparr> string_iterator = Some es2015_string_iterator \<rparr>"

text \<open>The string of the one code point U+1F600: a surrogate pair.\<close>

definition surrogate_pair :: jsstring where
  "surrogate_pair = [0xD83D, 0xDE00]"


section \<open>The derived length\<close>


lemma js_le_neg_mul: "0 \<le> m \<Longrightarrow> js_le (js_mul (Fin (- 1)) (Fin m)) (Fin 0)"
  by (cases "m = 0") (simp_all add: js_mul_def js_le_def)

lemma toLength_num_Fin:
  "toLength_num (Fin q) = Fin (if q \<le> 0 then 0 else min (of_int \<lfloor>q\<rfloor>) (2 ^ 53 - 1))"
proof -
  consider "q = 0" | "q < 0" | "0 < q" "q < 1" | "1 \<le> q" by linarith
  then show ?thesis
  proof cases
    case 1
    then show ?thesis by (simp add: toLength_num_def)
  next
    case 2
    have sg: "sign (Fin q) = Fin (- 1)" using 2 by (simp add: sign_def)
    have fl: "js_floor (js_abs (Fin q)) = Fin (of_int \<lfloor>\<bar>q\<bar>\<rfloor>)" by simp
    have "(0::rat) \<le> of_int \<lfloor>\<bar>q\<bar>\<rfloor>" by simp
    then have "js_le (js_mul (Fin (- 1)) (Fin (of_int \<lfloor>\<bar>q\<bar>\<rfloor>))) (Fin 0)"
      by (rule js_le_neg_mul)
    then have "js_le (js_mul (sign (Fin q)) (js_floor (js_abs (Fin q)))) (Fin 0)"
      by (simp only: sg fl)
    moreover have "\<not> js_isNaN (Fin q)" "\<not> js_strict_eq (Fin q) (Fin 0)" "numberIsFinite (Fin q)"
      using 2 by (simp_all add: numberIsFinite_def)
    ultimately show ?thesis
      using 2 by (simp only: toLength_num_def Let_def if_True if_False simp_thms) simp
  next
    case 3
    then have "\<lfloor>q\<rfloor> = 0" by (simp add: floor_unique)
    with 3 show ?thesis
      by (simp add: toLength_num_def numberIsFinite_def sign_def js_mul_def js_le_def Let_def)
  next
    case 4
    define m :: rat where "m = of_int \<lfloor>q\<rfloor>"
    have "1 \<le> \<lfloor>q\<rfloor>" using 4 by simp
    then have m: "1 \<le> m" by (simp add: m_def)
    have sg: "sign (Fin q) = Fin 1" using 4 by (simp add: sign_def)
    have fl: "js_floor (js_abs (Fin q)) = Fin m" using 4 by (simp add: m_def)
    have mul: "js_mul (Fin 1) (Fin m) = Fin m" using m by (simp add: js_mul_def)
    have "toLength_num (Fin q) = (if 2 ^ 53 - 1 < m then Fin (2 ^ 53 - 1) else Fin m)"
      using 4 m
      by (simp add: toLength_num_def numberIsFinite_def sg fl mul js_le_def js_gt_def
          maxSafeInteger_def Let_def del: js_floor.simps js_abs.simps)
    then show ?thesis using 4 by (simp add: m_def min_def)
  qed
qed

lemma toLength_num_special:
  "toLength_num PosInf = PosInf" "toLength_num NegInf = NegInf" "toLength_num NegZero = NegZero"
  by (simp_all add: toLength_num_def numberIsFinite_def)

lemma toLength_length:
  "toLength ob = toLength_num (case prop_length ob of None \<Rightarrow> NaN | Some l \<Rightarrow> l)"
  by (simp add: toLength_def length_number_def)




section \<open>The scheduled loop on each kind of iterator\<close>

lemma js_lt_element_count:
  assumes "l \<noteq> PosInf"
  shows "js_lt (Fin (of_nat j)) l = (j < element_count l)"
proof (cases l)
  case (Fin q)
  have "(of_nat j < q) = (int j < \<lceil>q\<rceil>)"
    by (simp add: less_ceiling_iff)
  also have "\<dots> = (j < nat \<lceil>q\<rceil>)" by linarith
  finally show ?thesis by (simp add: Fin element_count_def)
qed (use assms in \<open>simp_all add: element_count_def\<close>)

lemma scheduleRecursive_array:
  assumes "\<And>j. js_lt (Fin (of_nat j)) l = (j < n)" and "i \<le> n"
  shows "scheduleRecursive sch loopRecursive k (ArrayIterator a l i, tr) =
         Some (ArrayIterator a l n,
               tr @ map (\<lambda>j. OnNext (prop_index a j)) [i..<n] @ [OnCompleted])"
  using assms(2)
proof (induction "n - i" arbitrary: i k tr)
  case 0
  then have "i = n" by simp
  then show ?case
    by (subst scheduleRecursive.simps)
       (simp add: loopRecursive_def doneEnumerator_def onCompleted_def assms(1))
next
  case (Suc d)
  then have lt: "i < n" and d: "d = n - (i + 1)" and le: "i + 1 \<le> n" by simp_all
  have "scheduleRecursive sch loopRecursive k (ArrayIterator a l i, tr) =
        scheduleRecursive sch loopRecursive (k + 1)
          (ArrayIterator a l (i + 1), tr @ [OnNext (prop_index a i)])"
    using lt by (subst scheduleRecursive.simps) (simp add: loopRecursive_def onNext_def assms(1))
  also have "\<dots> = Some (ArrayIterator a l n,
      (tr @ [OnNext (prop_index a i)]) @ map (\<lambda>j. OnNext (prop_index a j)) [i + 1..<n] @ [OnCompleted])"
    using Suc.hyps(1) [OF d le] .
  finally show ?case using lt by (simp add: upt_conv_Cons)
qed

lemma iterate_array:
  assumes "l \<noteq> PosInf"
  shows "iterate sch (ArrayIterator a l 0) =
         Some (Inr (map (\<lambda>j. OnNext (prop_index a j)) [0..<element_count l] @ [OnCompleted]))"
  by (simp add: iterate_def
      scheduleRecursive_array [where n = "element_count l", OF js_lt_element_count [OF assms]])

lemma scheduleRecursive_string:
  assumes "i \<le> length s"
  shows "scheduleRecursive sch loopRecursive k (StringIterator s (length s) i, tr) =
         Some (StringIterator s (length s) (length s),
               tr @ map (\<lambda>j. OnNext (charAt s j)) [i..<length s] @ [OnCompleted])"
  using assms
proof (induction "length s - i" arbitrary: i k tr)
  case 0
  then have "i = length s" by simp
  then show ?case
    by (subst scheduleRecursive.simps)
       (simp add: loopRecursive_def doneEnumerator_def onCompleted_def)
next
  case (Suc d)
  then have lt: "i < length s" and d: "d = length s - (i + 1)" and le: "i + 1 \<le> length s"
    by simp_all
  have "scheduleRecursive sch loopRecursive k (StringIterator s (length s) i, tr) =
        scheduleRecursive sch loopRecursive (k + 1)
          (StringIterator s (length s) (i + 1), tr @ [OnNext (charAt s i)])"
    using lt by (subst scheduleRecursive.simps) (simp add: loopRecursive_def onNext_def)
  also have "\<dots> = Some (StringIterator s (length s) (length s),
      (tr @ [OnNext (charAt s i)]) @ map (\<lambda>j. OnNext (charAt s j)) [i + 1..<length s] @ [OnCompleted])"
    using Suc.hyps(1) [OF d le] .
  finally show ?case using lt by (simp add: upt_conv_Cons)
qed

lemma scheduleRecursive_host_throws:
  assumes "\<forall>j<length vs. f (k + j) = Returns (IterResult False (vs ! j))"
      and "f (k + length vs) = Throws e"
  shows "scheduleRecursive sch loopRecursive st (HostIterator f k, tr) =
         Some (HostIterator f (k + length vs + 1), tr @ map OnNext vs @ [OnError e])"
  using assms
proof (induction vs arbitrary: k st tr)
  case Nil
  then show ?case
    by (subst scheduleRecursive.simps) (simp add: loopRecursive_def onError_def)
next
  case (Cons v vs)
  from Cons.prems(1) have hd: "f k = Returns (IterResult False v)" by force
  have tl: "\<forall>j<length vs. f (k + 1 + j) = Returns (IterResult False (vs ! j))"
  proof (intro allI impI)
    fix j assume "j < length vs"
    then have "f (k + Suc j) = Returns (IterResult False ((v # vs) ! Suc j))"
      using Cons.prems(1) by (metis Suc_less_eq length_Cons)
    then show "f (k + 1 + j) = Returns (IterResult False (vs ! j))" by simp
  qed
  have thr: "f (k + 1 + length vs) = Throws e" using Cons.prems(2) by simp
  have "scheduleRecursive sch loopRecursive st (HostIterator f k, tr) =
        scheduleRecursive sch loopRecursive (st + 1) (HostIterator f (k + 1), tr @ [OnNext v])"
    using hd by (subst scheduleRecursive.simps) (simp add: loopRecursive_def onNext_def)
  also have "\<dots> = Some (HostIterator f (k + 1 + length vs + 1),
      (tr @ [OnNext v]) @ map OnNext vs @ [OnError e])"
    by (rule Cons.IH [OF tl thr])
  finally show ?case by simp
qed

lemma scheduleRecursive_host_done:
  assumes "\<forall>j<length vs. f (k + j) = Returns (IterResult False (vs ! j))"
      and "f (k + length vs) = Returns r" and "res_done r"
  shows "scheduleRecursive sch loopRecursive st (HostIterator f k, tr) =
         Some (HostIterator f (k + length vs + 1), tr @ map OnNext vs @ [OnCompleted])"
  using assms
proof (induction vs arbitrary: k st tr)
  case Nil
  then show ?case
    by (subst scheduleRecursive.simps) (simp add: loopRecursive_def onCompleted_def)
next
  case (Cons v vs)
  from Cons.prems(1) have hd: "f k = Returns (IterResult False v)" by force
  have tl: "\<forall>j<length vs. f (k + 1 + j) = Returns (IterResult False (vs ! j))"
  proof (intro allI impI)
    fix j assume "j < length vs"
    then have "f (k + Suc j) = Returns (IterResult False ((v # vs) ! Suc j))"
      using Cons.prems(1) by (metis Suc_less_eq length_Cons)
    then show "f (k + 1 + j) = Returns (IterResult False (vs ! j))" by simp
  qed
  have dn: "f (k + 1 + length vs) = Returns r" using Cons.prems(2) by simp
  have "scheduleRecursive sch loopRecursive st (HostIterator f k, tr) =
        scheduleRecursive sch loopRecursive (st + 1) (HostIterator f (k + 1), tr @ [OnNext v])"
    using hd by (subst scheduleRecursive.simps) (simp add: loopRecursive_def onNext_def)
  also have "\<dots> = Some (HostIterator f (k + 1 + length vs + 1),
      (tr @ [OnNext v]) @ map OnNext vs @ [OnCompleted])"
    by (rule Cons.IH [OF tl dn Cons.prems(3)])
  finally show ?case by simp
qed

lemma getIterable_object:
  "getIterable h (SrcObject ob) =
     (case prop_iterator ob of
        Some f \<Rightarrow> Inr (HostIterator f 0)
      | None \<Rightarrow> if prop_length ob \<noteq> None then Inr (ArrayIterator ob (toLength ob) 0)
                else Inl (TypeError ''Object is not iterable''))"
  by (simp add: getIterable_def iterator_of_def typeof_string_def length_defined_def
      new_ArrayIterator_def Let_def split: option.splits)

text \<open>
  An array-like whose \<open>length\<close> is \<open>Infinity\<close> is iterated for ever: the subscription
  never delivers \<open>onCompleted\<close>.
\<close>

lemma scheduleRecursive_infinite_array_aux:
  assumes "scheduleRecursive sch worker st w = Some y"
  shows "worker = loopRecursive \<longrightarrow> (\<forall>a i tr. w \<noteq> (ArrayIterator a PosInf i, tr))"
proof (rule scheduleRecursive.raw_induct
    [where P = "\<lambda>sch worker st w y.
       worker = loopRecursive \<longrightarrow> (\<forall>a i tr. w \<noteq> (ArrayIterator a PosInf i, tr))",
     OF _ assms], goal_cases)
  case (1 rec sch worker st w y)
  show ?case
  proof (intro impI allI notI)
    fix a i tr
    assume wk: "worker = loopRecursive" and w: "w = (ArrayIterator a PosInf i, tr)"
    have step: "loopRecursive st w =
        ((ArrayIterator a PosInf (i + 1), tr @ [OnNext (prop_index a i)]), Some (st + 1))"
      by (simp add: w loopRecursive_def onNext_def)
    from 1(2) have "rec sch worker (st + 1)
        (ArrayIterator a PosInf (i + 1), tr @ [OnNext (prop_index a i)]) = Some y"
      by (simp add: wk step)
    from 1(1) [OF this] wk show False by blast
  qed
qed

lemma scheduleRecursive_infinite_array:
  "scheduleRecursive sch loopRecursive st (ArrayIterator a PosInf i, tr) = None"
proof (cases "scheduleRecursive sch loopRecursive st (ArrayIterator a PosInf i, tr)")
  case None
  then show ?thesis .
next
  case (Some y)
  from scheduleRecursive_infinite_array_aux [OF this] show ?thesis by blast
qed

lemma from_infinite_array_never_completes:
  "subscribe_from h (SrcObject infinite_array) thisArg scheduler = None"
proof -
  have "getIterable h (SrcObject infinite_array) = Inr (ArrayIterator infinite_array PosInf 0)"
    by (simp add: getIterable_object infinite_array_def toLength_length toLength_num_special)
  then show ?thesis
    by (simp add: subscribe_from_def observableFrom_def loosely_null_def
        FromObservable_subscribeCore_def Let_def scheduleRecursive_infinite_array)
qed

section \<open>Subscribing, by kind of iterator\<close>

lemma iterate_string:
  "iterate sch (new_StringIterator s) =
     Some (Inr (map (\<lambda>i. OnNext (charAt s i)) [0..<length s] @ [OnCompleted]))"
  by (simp add: iterate_def new_StringIterator_def scheduleRecursive_string)

lemma iterate_host_throws:
  assumes "\<forall>j<length vs. f j = Returns (IterResult False (vs ! j))"
      and "f (length vs) = Throws e"
  shows "iterate sch (HostIterator f 0) = Some (Inr (map OnNext vs @ [OnError e]))"
proof -
  have "scheduleRecursive sch loopRecursive 0 (HostIterator f 0, []) =
      Some (HostIterator f (0 + length vs + 1), [] @ map OnNext vs @ [OnError e])"
    by (rule scheduleRecursive_host_throws) (simp_all add: assms)
  then show ?thesis by (simp add: iterate_def)
qed

lemma iterate_host_done:
  assumes "\<forall>j<length vs. f j = Returns (IterResult False (vs ! j))"
      and "f (length vs) = Returns r" and "res_done r"
  shows "iterate sch (HostIterator f 0) = Some (Inr (map OnNext vs @ [OnCompleted]))"
proof -
  have "scheduleRecursive sch loopRecursive 0 (HostIterator f 0, []) =
      Some (HostIterator f (0 + length vs + 1), [] @ map OnNext vs @ [OnCompleted])"
    by (rule scheduleRecursive_host_done [where r = r]) (simp_all add: assms)
  then show ?thesis by (simp add: iterate_def)
qed

lemma iterate_string_object:
  assumes "length s < 2 ^ 53"
  shows "iterate sch (new_ArrayIterator (string_object h s)) =
         Some (Inr (map (\<lambda>i. OnNext (charAt s i)) [0..<length s] @ [OnCompleted]))"
proof -
  let ?ob = "string_object h s"
  have "(of_nat (length s) :: rat) \<le> 2 ^ 53 - 1" using assms
    by (metis Suc_leI of_nat_Suc of_nat_le_iff of_nat_numeral of_nat_power le_diff_eq add.commute)
  then have len: "toLength ?ob = Fin (of_nat (length s))"
    by (simp add: string_object_def toLength_length toLength_num_Fin min_def)
  have cnt: "element_count (Fin (of_nat (length s))) = length s"
    by (simp add: element_count_def)
  have idx: "map (\<lambda>j. OnNext (prop_index ?ob j)) [0..<length s] =
      map (\<lambda>i. OnNext (charAt s i)) [0..<length s]"
    by (simp add: string_object_def charAt_def)
  show ?thesis
    by (simp add: new_ArrayIterator_def len iterate_array cnt idx)
qed

lemma subscribe_from_iterate:
  assumes "\<not> loosely_null src"
  shows "subscribe_from h src thisArg scheduler =
     (case getIterable h (js_Object h src) of
        Inl e \<Rightarrow> Some (Inl e)
      | Inr it \<Rightarrow> iterate (scheduler_or_default scheduler) it)"
  using assms
  by (simp add: subscribe_from_def observableFrom_def FromObservable_subscribeCore_def
      iterate_def scheduler_or_default_def Let_def split: sum.splits)

lemma getIterable_boxed:
  assumes "\<not> loosely_null src"
  shows "getIterable h (js_Object h src) =
     (case iterator_of h src of
        Some f \<Rightarrow> Inr (HostIterator f 0)
      | None \<Rightarrow>
          if typeof_string src then Inr (new_ArrayIterator (string_object h (string_of src)))
          else if length_defined src then Inr (new_ArrayIterator (object_of src))
          else Inl (TypeError ''Object is not iterable''))"
proof (cases src)
  case (SrcString s)
  have "prop_iterator (string_object h s) = iterator_of h (SrcString s)"
    "prop_length (string_object h s) \<noteq> None"
    by (simp_all add: string_object_def iterator_of_def)
  then show ?thesis
    by (simp add: SrcString getIterable_object typeof_string_def new_ArrayIterator_def
        split: option.splits)
next
  case (SrcObject ob)
  then show ?thesis
    by (simp add: getIterable_object iterator_of_def typeof_string_def length_defined_def
        new_ArrayIterator_def split: option.splits)
qed (use assms in \<open>simp_all add: loosely_null_def\<close>)

text \<open>
  On an ECMAScript 2015 host, a string without a high surrogate is iterated code unit by
  code unit.
\<close>

lemma code_points_no_surrogate:
  "\<forall>u\<in>set s. \<not> high_surrogate u \<Longrightarrow> code_points s = map (\<lambda>u. [u]) s"
  by (induction s rule: code_points.induct) simp_all

lemma es2015_yields_characters:
  assumes "\<forall>u\<in>set s. \<not> high_surrogate u"
  shows "yields_characters (es2015_string_iterator s) s"
proof -
  have cp: "code_points s = map (\<lambda>u. [u]) s"
    by (rule code_points_no_surrogate [OF assms])
  have "es2015_string_iterator s k = Returns (IterResult False (charAt s k))"
    if "k < length s" for k
    using that by (simp add: es2015_string_iterator_def cp charAt_def)
  moreover have "es2015_string_iterator s (length s) = Returns (IterResult True JUndefined)"
    by (simp add: es2015_string_iterator_def cp)
  ultimately show ?thesis by (simp add: yields_characters_def)
qed

section \<open>The claims about \<open>from\<close>\<close>




text \<open>
  C2. \<open>from(null)\<close> and \<open>from(undefined)\<close> throw at the call, whatever the other
  arguments are: the call returns no observable, so nothing is left to subscribe to and
  the check is not deferred to subscribe time.
\<close>

theorem from_null_throws_at_call:
  "observableFrom SrcNull thisArg scheduler = Inl (Error ''iterable cannot be null.'')
   \<and> observableFrom SrcUndefined thisArg scheduler = Inl (Error ''iterable cannot be null.'')"
  by (simp add: observableFrom_def loosely_null_def)

text \<open>
  C3. For a source whose iterator returns the values \<open>vs\<close> on its first \<open>k - 1\<close> pulls
  and throws \<open>e\<close> on pull \<open>k\<close> (\<open>k = length vs + 1\<close>), the subscription delivers
  \<open>onNext\<close> for each value of \<open>vs\<close> in order, then exactly one \<open>onError(e)\<close>, and
  nothing else: no \<open>onCompleted\<close>, no later signal.
\<close>

theorem from_iterator_throws:
  assumes "\<not> loosely_null src" and "iterator_of h (js_Object h src) = Some f"
      and "\<forall>j<length vs. f j = Returns (IterResult False (vs ! j))"
      and "f (length vs) = Throws e"
  shows "subscribe_from h src thisArg scheduler = Some (Inr (map OnNext vs @ [OnError e]))"
proof -
  obtain ob where ob: "js_Object h src = SrcObject ob" by (cases src) simp_all
  with assms(2) have "prop_iterator ob = Some f" by (simp add: iterator_of_def)
  then have "getIterable h (js_Object h src) = Inr (HostIterator f 0)"
    by (simp add: ob getIterable_object)
  moreover have "scheduleRecursive sch loopRecursive 0 (HostIterator f 0, []) =
      Some (HostIterator f (0 + length vs + 1), [] @ map OnNext vs @ [OnError e])" for sch
    by (rule scheduleRecursive_host_throws) (simp_all add: assms)
  ultimately show ?thesis
    using assms(1)
    by (simp add: subscribe_from_def observableFrom_def FromObservable_subscribeCore_def Let_def)
qed

theorem from_iterator_throws_witness:
  "subscribe_from no_string_iterator (SrcObject failing_iterable) JUndefined None =
     Some (Inr [OnNext (JNum (Fin 1)), OnNext (JNum (Fin 2)), OnError (JStr (str ''fail''))])"
proof -
  have a: "\<not> loosely_null (SrcObject failing_iterable)" by (simp add: loosely_null_def)
  have b: "iterator_of no_string_iterator (js_Object no_string_iterator (SrcObject failing_iterable))
      = Some failing_iterator"
    by (simp add: iterator_of_def failing_iterable_def)
  have c: "\<forall>j<length [JNum (Fin 1), JNum (Fin 2)].
      failing_iterator j = Returns (IterResult False ([JNum (Fin 1), JNum (Fin 2)] ! j))"
    by (simp add: failing_iterator_def less_Suc_eq)
  have d: "failing_iterator (length [JNum (Fin 1), JNum (Fin 2)]) = Throws (JStr (str ''fail''))"
    by (simp add: failing_iterator_def)
  show ?thesis
    using from_iterator_throws [OF a b c d, of JUndefined None] by simp
qed

text \<open>
  C4. \<open>from\<close> itself resolves nothing: for a source that is neither \<open>null\<close> nor
  \<open>undefined\<close> it returns an observable that holds the source. At subscribe time
  \<open>subscribeCore\<close> resolves the source in this order: when the source has the iterator
  capability, the loop runs on the iterator it returns; otherwise, when the source is a
  string, on a per-character iterator (the String object that \<open>Object\<close> makes of it,
  iterated by index), which delivers \<open>onNext\<close> of each character in order and then
  \<open>onCompleted\<close>; otherwise, when its \<open>length\<close> is defined, on an \<open>ArrayIterator\<close>
  from index \<open>0\<close> up to its derived length; otherwise the TypeError
  \<open>Object is not iterable\<close> is thrown. A string has fewer than \<open>2^53\<close> code units.
\<close>

theorem from_resolves_source_at_subscribe_time:
  assumes "\<not> loosely_null src"
  shows "observableFrom src thisArg scheduler =
           Inr \<lparr> from_iterable = src, from_scheduler = scheduler_or_default scheduler \<rparr>
       \<and> subscribe_from h src thisArg scheduler =
           (case iterator_of h src of
              Some f \<Rightarrow> iterate (scheduler_or_default scheduler) (HostIterator f 0)
            | None \<Rightarrow>
                if typeof_string src
                then iterate (scheduler_or_default scheduler)
                       (new_ArrayIterator (string_object h (string_of src)))
                else if length_defined src
                then iterate (scheduler_or_default scheduler) (new_ArrayIterator (object_of src))
                else Some (Inl (TypeError ''Object is not iterable'')))
       \<and> (typeof_string src \<and> iterator_of h src = None \<and> length (string_of src) < 2 ^ 53 \<longrightarrow>
            subscribe_from h src thisArg scheduler =
              Some (Inr (map (\<lambda>i. OnNext (charAt (string_of src) i)) [0..<length (string_of src)]
                         @ [OnCompleted])))"
proof (intro conjI impI)
  show "observableFrom src thisArg scheduler =
      Inr \<lparr> from_iterable = src, from_scheduler = scheduler_or_default scheduler \<rparr>"
    using assms by (simp add: observableFrom_def scheduler_or_default_def)
  show eq: "subscribe_from h src thisArg scheduler =
      (case iterator_of h src of
         Some f \<Rightarrow> iterate (scheduler_or_default scheduler) (HostIterator f 0)
       | None \<Rightarrow>
           if typeof_string src
           then iterate (scheduler_or_default scheduler)
                  (new_ArrayIterator (string_object h (string_of src)))
           else if length_defined src
           then iterate (scheduler_or_default scheduler) (new_ArrayIterator (object_of src))
           else Some (Inl (TypeError ''Object is not iterable'')))"
    by (simp add: subscribe_from_iterate [OF assms] getIterable_boxed [OF assms]
        split: option.splits)
  assume "typeof_string src \<and> iterator_of h src = None \<and> length (string_of src) < 2 ^ 53"
  then show "subscribe_from h src thisArg scheduler =
      Some (Inr (map (\<lambda>i. OnNext (charAt (string_of src) i)) [0..<length (string_of src)]
                 @ [OnCompleted]))"
    by (simp add: eq iterate_string_object)
qed

theorem from_resolves_source_at_subscribe_time_witness:
  "subscribe_from no_string_iterator (SrcObject failing_iterable) JUndefined None =
     Some (Inr [OnNext (JNum (Fin 1)), OnNext (JNum (Fin 2)), OnError (JStr (str ''fail''))])
   \<and> subscribe_from no_string_iterator (SrcString (str ''ab'')) JUndefined None =
     Some (Inr [OnNext (JStr (str ''a'')), OnNext (JStr (str ''b'')), OnCompleted])
   \<and> subscribe_from no_string_iterator (SrcObject example_array) JUndefined None =
     Some (Inr [OnNext (JStr (str ''x'')), OnNext (JStr (str ''y'')), OnCompleted])
   \<and> subscribe_from no_string_iterator (SrcObject empty_object) JUndefined None =
     Some (Inl (TypeError ''Object is not iterable''))"
proof -
  have n: "\<not> loosely_null (SrcObject ob)" "\<not> loosely_null (SrcString s)" for ob s
    by (simp_all add: loosely_null_def)
  have run: "iterate sch (HostIterator failing_iterator 0) =
      Some (Inr (map OnNext [JNum (Fin 1), JNum (Fin 2)] @ [OnError (JStr (str ''fail''))]))" for sch
    by (rule iterate_host_throws) (simp_all add: failing_iterator_def less_Suc_eq)
  have d: "[0..<2] = [0, Suc 0]" by (simp add: upt_rec)
  have p: "prop_iterator example_array = None" "prop_length example_array = Some (Fin 2)"
    "prop_index example_array 0 = JStr (str ''x'')"
    "prop_index example_array (Suc 0) = JStr (str ''y'')"
    by (simp_all add: example_array_def)
  have l: "toLength example_array = Fin 2"
    by (simp add: example_array_def toLength_length toLength_num_Fin)
  have cnt: "element_count (Fin 2) = 2" by (simp add: element_count_def)
  have "subscribe_from no_string_iterator (SrcObject failing_iterable) JUndefined None =
      Some (Inr [OnNext (JNum (Fin 1)), OnNext (JNum (Fin 2)), OnError (JStr (str ''fail''))])"
    using from_resolves_source_at_subscribe_time
      [where src = "SrcObject failing_iterable" and thisArg = JUndefined and scheduler = None
        and h = no_string_iterator, OF n(1)]
    by (simp add: iterator_of_def failing_iterable_def run)
  moreover have "subscribe_from no_string_iterator (SrcString (str ''ab'')) JUndefined None =
      Some (Inr [OnNext (JStr (str ''a'')), OnNext (JStr (str ''b'')), OnCompleted])"
  proof -
    have "typeof_string (SrcString (str ''ab''))
        \<and> iterator_of no_string_iterator (SrcString (str ''ab'')) = None
        \<and> length (string_of (SrcString (str ''ab''))) < 2 ^ 53"
      by (simp add: iterator_of_def typeof_string_def no_string_iterator_def str_def)
    with from_resolves_source_at_subscribe_time
      [where src = "SrcString (str ''ab'')" and thisArg = JUndefined and scheduler = None
        and h = no_string_iterator, OF n(2)]
    have "subscribe_from no_string_iterator (SrcString (str ''ab'')) JUndefined None =
        Some (Inr (map (\<lambda>i. OnNext (charAt (string_of (SrcString (str ''ab''))) i))
                    [0..<length (string_of (SrcString (str ''ab'')))] @ [OnCompleted]))"
      by blast
    then show ?thesis by (simp add: str_def d charAt_def)
  qed
  moreover have "subscribe_from no_string_iterator (SrcObject example_array) JUndefined None =
      Some (Inr [OnNext (JStr (str ''x'')), OnNext (JStr (str ''y'')), OnCompleted])"
    using from_resolves_source_at_subscribe_time
      [where src = "SrcObject example_array" and thisArg = JUndefined and scheduler = None
        and h = no_string_iterator, OF n(1)]
    by (simp add: iterator_of_def typeof_string_def length_defined_def p l cnt d
        new_ArrayIterator_def iterate_array)
  moreover have "subscribe_from no_string_iterator (SrcObject empty_object) JUndefined None =
      Some (Inl (TypeError ''Object is not iterable''))"
    using from_resolves_source_at_subscribe_time
      [where src = "SrcObject empty_object" and thisArg = JUndefined and scheduler = None
        and h = no_string_iterator, OF n(1)]
    by (simp add: iterator_of_def typeof_string_def length_defined_def empty_object_def)
  ultimately show ?thesis by blast
qed

text \<open>
  C5. The derived length is to be clamped from above to \<open>2^53 - 1\<close> for every
  \<open>length\<close>, the infinite ones included. At the \<open>length\<close> \<open>Infinity\<close> the code does
  not do so: \<open>toLength\<close> returns \<open>Infinity\<close>, which is above \<open>2^53 - 1\<close>, while a
  finite \<open>length\<close> of \<open>2^60\<close> is clamped; and the subscription to \<open>from\<close> of such an
  array-like never completes.
\<close>

theorem toLength_infinite_length_not_clamped:
  "toLength infinite_array = PosInf
   \<and> js_gt (toLength infinite_array) maxSafeInteger
   \<and> toLength huge_array = maxSafeInteger
   \<and> subscribe_from h (SrcObject infinite_array) thisArg scheduler = None"
proof -
  have "toLength infinite_array = PosInf"
    by (simp add: infinite_array_def toLength_length toLength_num_special)
  moreover have "js_gt PosInf maxSafeInteger"
    by (simp add: js_gt_def maxSafeInteger_def)
  moreover have "toLength huge_array = maxSafeInteger"
    by (simp add: huge_array_def toLength_length toLength_num_Fin maxSafeInteger_def)
  ultimately show ?thesis
    by (simp add: from_infinite_array_never_completes)
qed

section \<open>The claims about the event pattern\<close>

text \<open>
  C6. With \<open>publish\<close> and \<open>refCount\<close> as the spec describes them, and an \<open>addHandler\<close>
  and a \<open>removeHandler\<close> that return: two subscriptions call \<open>addHandler\<close> exactly
  once; the first unsubscription calls nothing; the second, last one calls
  \<open>removeHandler\<close> exactly once; and a subscriber that arrives afterwards makes
  \<open>addHandler\<close> be called again.
\<close>

theorem fromEventPattern_shares_one_registration:
  assumes "addHandler (createHandler publish_subject) = Returns ret"
      and "removeHandler (createHandler publish_subject) ret = Returns v"
  shows "run_calls [Subscribe o1, Subscribe o2]
           (fromEventPattern addHandler (Function removeHandler))
           = Some [AddCall (createHandler publish_subject)]
       \<and> run_calls [Subscribe o1, Subscribe o2, Unsubscribe o1]
           (fromEventPattern addHandler (Function removeHandler))
           = Some [AddCall (createHandler publish_subject)]
       \<and> run_calls [Subscribe o1, Subscribe o2, Unsubscribe o2]
           (fromEventPattern addHandler (Function removeHandler))
           = Some [AddCall (createHandler publish_subject)]
       \<and> run_calls [Subscribe o1, Subscribe o2, Unsubscribe o1, Unsubscribe o2]
           (fromEventPattern addHandler (Function removeHandler))
           = Some [AddCall (createHandler publish_subject),
                   RemoveCall (createHandler publish_subject) ret]
       \<and> run_calls [Subscribe o1, Subscribe o2, Unsubscribe o2, Unsubscribe o1]
           (fromEventPattern addHandler (Function removeHandler))
           = Some [AddCall (createHandler publish_subject),
                   RemoveCall (createHandler publish_subject) ret]
       \<and> run_calls [Subscribe o1, Subscribe o2, Unsubscribe o1, Unsubscribe o2, Subscribe o3]
           (fromEventPattern addHandler (Function removeHandler))
           = Some [AddCall (createHandler publish_subject),
                   RemoveCall (createHandler publish_subject) ret,
                   AddCall (createHandler publish_subject)]"
  using assms
  by (simp add: run_calls_def fromEventPattern_def shared_subscribe_def shared_unsubscribe_def
      EventPatternObservable_subscribeCore_def dispose_def new_EventPatternDisposable_def Let_def)

theorem fromEventPattern_shares_one_registration_witness:
  "run_calls [Subscribe (Observer 1), Subscribe (Observer 2)]
     (fromEventPattern example_add example_remove) = Some [AddCall (Handler (Observer 0))]
   \<and> run_calls [Subscribe (Observer 1), Subscribe (Observer 2), Unsubscribe (Observer 1)]
     (fromEventPattern example_add example_remove) = Some [AddCall (Handler (Observer 0))]
   \<and> run_calls [Subscribe (Observer 1), Subscribe (Observer 2), Unsubscribe (Observer 1),
       Unsubscribe (Observer 2)]
     (fromEventPattern example_add example_remove) =
       Some [AddCall (Handler (Observer 0)), RemoveCall (Handler (Observer 0)) (JNum (Fin 7))]
   \<and> run_calls [Subscribe (Observer 1), Subscribe (Observer 2), Unsubscribe (Observer 1),
       Unsubscribe (Observer 2), Subscribe (Observer 3)]
     (fromEventPattern example_add example_remove) =
       Some [AddCall (Handler (Observer 0)), RemoveCall (Handler (Observer 0)) (JNum (Fin 7)),
             AddCall (Handler (Observer 0))]"
proof -
  have a: "example_add (createHandler publish_subject) = Returns (JNum (Fin 7))"
    by (simp add: example_add_def)
  have b: "example_remove_function (createHandler publish_subject) (JNum (Fin 7)) =
      Returns JUndefined"
    by (simp add: example_remove_function_def)
  have d: "createHandler publish_subject = Handler (Observer 0)"
    by (simp add: createHandler_def publish_subject_def)
  from fromEventPattern_shares_one_registration
    [of example_add "JNum (Fin 7)" example_remove_function JUndefined
      "Observer 1" "Observer 2" "Observer 3", OF a b]
  show ?thesis
    by (simp only: d example_remove_def)
qed

text \<open>
  C7, as amended. For a disposable that the event-pattern constructor has produced and
  whose \<open>removeHandler\<close> is not callable or returns when called with the forwarding
  handler and the value \<open>addHandler\<close> returned: the first \<open>dispose()\<close> calls a callable
  \<open>removeHandler\<close> exactly once, with these two arguments, and sets \<open>isDisposed\<close>; a
  second \<open>dispose()\<close> changes nothing and calls nothing.
\<close>

theorem dispose_idempotent_when_removeHandler_returns:
  assumes "removal_returns del fn ret"
  shows "dispose (new_EventPatternDisposable del fn ret) calls =
           (Returns (), (new_EventPatternDisposable del fn ret)\<lparr>isDisposed := True\<rparr>,
            calls @ removal_calls del fn ret)
       \<and> dispose_twice (new_EventPatternDisposable del fn ret) calls =
           dispose (new_EventPatternDisposable del fn ret) calls"
  using assms
  by (auto simp add: removal_returns_def removal_calls_def dispose_twice_def dispose_def
      new_EventPatternDisposable_def split: removeHandler.splits outcome.splits)

theorem dispose_idempotent_when_removeHandler_returns_witness:
  "dispose (new_EventPatternDisposable example_remove (Handler (Observer 1)) (JNum (Fin 7))) [] =
     (Returns (),
      (new_EventPatternDisposable example_remove (Handler (Observer 1)) (JNum (Fin 7)))\<lparr>isDisposed := True\<rparr>,
      [RemoveCall (Handler (Observer 1)) (JNum (Fin 7))])
   \<and> dispose_twice (new_EventPatternDisposable example_remove (Handler (Observer 1)) (JNum (Fin 7))) [] =
     dispose (new_EventPatternDisposable example_remove (Handler (Observer 1)) (JNum (Fin 7))) []"
proof -
  have a: "removal_returns example_remove (Handler (Observer 1)) (JNum (Fin 7))"
    by (simp add: removal_returns_def example_remove_def example_remove_function_def)
  have b: "removal_calls example_remove (Handler (Observer 1)) (JNum (Fin 7)) =
      [RemoveCall (Handler (Observer 1)) (JNum (Fin 7))]"
    by (simp add: removal_calls_def example_remove_def)
  from dispose_idempotent_when_removeHandler_returns [OF a, of "[]"] show ?thesis
    by (simp only: b append_Nil)
qed

text \<open>
  The claim as stated fails for a \<open>removeHandler\<close> that throws: the exception leaves
  \<open>dispose()\<close> before \<open>isDisposed\<close> is set, and the second \<open>dispose()\<close> calls
  \<open>removeHandler\<close> a second time.
\<close>

theorem dispose_twice_counterexample:
  "remove_calls (snd (snd (dispose throwing_disposable []))) =
     [RemoveCall (Handler (Observer 0)) (JNum (Fin 7))]
   \<and> \<not> isDisposed (fst (snd (dispose throwing_disposable [])))
   \<and> remove_calls (snd (snd (dispose_twice throwing_disposable []))) =
     [RemoveCall (Handler (Observer 0)) (JNum (Fin 7)), RemoveCall (Handler (Observer 0)) (JNum (Fin 7))]"
  by (simp add: dispose_twice_def dispose_def throwing_disposable_def
      new_EventPatternDisposable_def remove_calls_def createHandler_def)

text \<open>
  C8. A subscription to the event-pattern observable whose \<open>addHandler\<close> returns builds
  one forwarding handler and calls \<open>addHandler\<close> once, with it; the disposable it returns
  holds this handler and the value \<open>addHandler\<close> returned; and a call of the handler
  with any arguments gives the observer \<open>onNext\<close> of the first argument alone
  (\<open>undefined\<close> when there is none).
\<close>

theorem subscribeCore_registers_forwarding_handler:
  assumes "ep_add this (createHandler o') = Returns ret"
  shows "EventPatternObservable_subscribeCore this o' calls =
           (Returns (new_EventPatternDisposable (ep_del this) (createHandler o') ret),
            calls @ [AddCall (createHandler o')])
       \<and> d_fn (new_EventPatternDisposable (ep_del this) (createHandler o') ret) = createHandler o'
       \<and> d_ret (new_EventPatternDisposable (ep_del this) (createHandler o') ret) = ret
       \<and> handler_call (createHandler o') (a # rest) dl = dl @ [(o', OnNext a)]
       \<and> handler_call (createHandler o') [] dl = dl @ [(o', OnNext JUndefined)]"
  using assms
  by (simp add: EventPatternObservable_subscribeCore_def new_EventPatternDisposable_def
      createHandler_def arguments0_def Let_def)

theorem subscribeCore_registers_forwarding_handler_witness:
  "EventPatternObservable_subscribeCore example_source (Observer 1) [] =
     (Returns (new_EventPatternDisposable example_remove (Handler (Observer 1)) (JNum (Fin 7))),
      [AddCall (Handler (Observer 1))])
   \<and> handler_call (Handler (Observer 1)) [JStr (str ''click''), JNum (Fin 2)] [] =
     [(Observer 1, OnNext (JStr (str ''click'')))]"
proof -
  have a: "ep_add example_source (createHandler (Observer 1)) = Returns (JNum (Fin 7))"
    by (simp add: example_source_def example_add_def)
  show ?thesis
    using subscribeCore_registers_forwarding_handler
      [OF a, of "[]" "JStr (str ''click'')" "[JNum (Fin 2)]" "[]"]
    by (simp add: createHandler_def example_source_def)
qed

section \<open>The remaining claims about \<open>from\<close>\<close>

text \<open>
  C9, as amended. For a string \<open>s\<close> (of fewer than \<open>2^53\<close> code units, as every string
  is), on a host whose strings have no iterator capability or whose string iterator
  returns the characters of \<open>s\<close> one by one (as an ECMAScript 2015 host does for a
  string without surrogate pairs), subscribing to \<open>from(s)\<close> delivers
  \<open>onNext(s.charAt(0))\<close>, ..., \<open>onNext(s.charAt(n-1))\<close> in index order, then exactly
  one \<open>onCompleted\<close>; and so does the loop on the source's own \<open>StringIterator\<close>. In
  particular \<open>from("ab")\<close> gives \<open>onNext('a')\<close>, \<open>onNext('b')\<close>, \<open>onCompleted()\<close>.
\<close>

theorem from_string_delivers_characters:
  assumes "string_iterator h = None
           \<or> (\<exists>g. string_iterator h = Some g \<and> yields_characters (g s) s)"
      and "length s < 2 ^ 53"
  shows "subscribe_from h (SrcString s) thisArg scheduler =
           Some (Inr (map (\<lambda>i. OnNext (charAt s i)) [0..<length s] @ [OnCompleted]))
       \<and> map_option snd (scheduleRecursive sch loopRecursive 0 (new_StringIterator s, [])) =
           Some (map (\<lambda>i. OnNext (charAt s i)) [0..<length s] @ [OnCompleted])"
proof
  have n: "\<not> loosely_null (SrcString s)" by (simp add: loosely_null_def)
  from assms(1) show "subscribe_from h (SrcString s) thisArg scheduler =
      Some (Inr (map (\<lambda>i. OnNext (charAt s i)) [0..<length s] @ [OnCompleted]))"
  proof (elim disjE exE conjE)
    assume none: "string_iterator h = None"
    then show ?thesis
      unfolding subscribe_from_iterate [OF n] getIterable_boxed [OF n]
      by (simp add: iterator_of_def typeof_string_def iterate_string_object [OF assms(2)])
  next
    fix g
    assume some: "string_iterator h = Some g" and y: "yields_characters (g s) s"
    from y obtain r where r: "g s (length s) = Returns r" "res_done r"
      by (auto simp add: yields_characters_def split: outcome.splits)
    let ?vs = "map (charAt s) [0..<length s]"
    have "iterate sch' (HostIterator (g s) 0) = Some (Inr (map OnNext ?vs @ [OnCompleted]))"
      for sch'
    proof (rule iterate_host_done)
      show "\<forall>j<length ?vs. g s j = Returns (IterResult False (?vs ! j))"
        using y by (simp add: yields_characters_def)
      show "g s (length ?vs) = Returns r" using r(1) by simp
      show "res_done r" by (rule r(2))
    qed
    then show ?thesis
      unfolding subscribe_from_iterate [OF n] getIterable_boxed [OF n]
      by (simp add: iterator_of_def some comp_def)
  qed
next
  show "map_option snd (scheduleRecursive sch loopRecursive 0 (new_StringIterator s, [])) =
      Some (map (\<lambda>i. OnNext (charAt s i)) [0..<length s] @ [OnCompleted])"
    by (simp add: new_StringIterator_def scheduleRecursive_string)
qed

theorem from_string_delivers_characters_witness:
  "subscribe_from no_string_iterator (SrcString (str ''ab'')) JUndefined None =
     Some (Inr [OnNext (JStr (str ''a'')), OnNext (JStr (str ''b'')), OnCompleted])
   \<and> subscribe_from es2015_host (SrcString (str ''ab'')) JUndefined None =
     Some (Inr [OnNext (JStr (str ''a'')), OnNext (JStr (str ''b'')), OnCompleted])"
proof -
  have a: "string_iterator no_string_iterator = None
      \<or> (\<exists>g. string_iterator no_string_iterator = Some g
            \<and> yields_characters (g (str ''ab'')) (str ''ab''))"
    by (simp add: no_string_iterator_def)
  have "\<forall>u\<in>set (str ''ab''). \<not> high_surrogate u"
    by (simp add: str_def high_surrogate_def)
  then have "yields_characters (es2015_string_iterator (str ''ab'')) (str ''ab'')"
    by (rule es2015_yields_characters)
  then have b: "string_iterator es2015_host = None
      \<or> (\<exists>g. string_iterator es2015_host = Some g
            \<and> yields_characters (g (str ''ab'')) (str ''ab''))"
    by (simp add: es2015_host_def)
  have d: "[0..<2] = [0, Suc 0]" by (simp add: upt_rec)
  have c: "length (str ''ab'') < 2 ^ 53" by (simp add: str_def)
  show ?thesis
    using from_string_delivers_characters [OF a c, of JUndefined None currentThreadScheduler]
      from_string_delivers_characters [OF b c, of JUndefined None currentThreadScheduler]
    by (simp add: d charAt_def str_def)
qed

text \<open>
  The claim as stated fails on an ECMAScript 2015 host for a string with a surrogate
  pair: the string has two code units, and the host's iterator returns them in one
  string, so the observer receives one \<open>onNext\<close> with the whole string, not
  \<open>onNext(s.charAt(0))\<close>, \<open>onNext(s.charAt(1))\<close>.
\<close>

theorem from_surrogate_pair_counterexample:
  "length surrogate_pair = 2
   \<and> subscribe_from es2015_host (SrcString surrogate_pair) JUndefined None =
     Some (Inr [OnNext (JStr surrogate_pair), OnCompleted])
   \<and> subscribe_from es2015_host (SrcString surrogate_pair) JUndefined None \<noteq>
     Some (Inr [OnNext (charAt surrogate_pair 0), OnNext (charAt surrogate_pair 1), OnCompleted])"
proof -
  have cp: "code_points surrogate_pair = [surrogate_pair]"
    by (simp add: surrogate_pair_def high_surrogate_def low_surrogate_def)
  have it: "getIterable es2015_host (SrcObject (string_object es2015_host surrogate_pair)) =
      Inr (HostIterator (es2015_string_iterator surrogate_pair) 0)"
    by (simp add: getIterable_object) (simp add: string_object_def es2015_host_def)
  have run: "iterate sch (HostIterator (es2015_string_iterator surrogate_pair) 0) =
      Some (Inr (map OnNext [JStr surrogate_pair] @ [OnCompleted]))" for sch
    by (rule iterate_host_done [where r = "IterResult True JUndefined"])
       (simp_all add: es2015_string_iterator_def cp)
  have "subscribe_from es2015_host (SrcString surrogate_pair) JUndefined None =
      Some (Inr [OnNext (JStr surrogate_pair), OnCompleted])"
    by (simp add: subscribe_from_iterate loosely_null_def it run)
  then show ?thesis by (simp add: surrogate_pair_def)
qed

text \<open>
  C10. \<open>from\<close> never reads its second argument \<open>thisArg\<close>: for every source, every
  scheduler argument and any two values of \<open>thisArg\<close>, the call returns the same
  observable (or throws the same error), and subscribing gives the same result.
\<close>

theorem from_thisArg_unused:
  "observableFrom iterable t1 scheduler = observableFrom iterable t2 scheduler
   \<and> subscribe_from h iterable t1 scheduler = subscribe_from h iterable t2 scheduler"
  by (simp add: observableFrom_def subscribe_from_def)

end
